theory Spec2Isabelle
  imports Complex_Main
begin

section \<open>The controller layer of the Tetris agent (controller.py)\<close>

text \<open>
  The development embeds \<^verbatim>\<open>src/tetris_project/controller.py\<close>: the abstract
  \<^verbatim>\<open>Controller\<close>, the \<^verbatim>\<open>HumanController\<close>, the network \<^verbatim>\<open>DQN\<close> and the two
  controllers built on it. Python exceptions are values of \<open>py_error\<close>; a method that
  can raise returns \<open>py_error + 'a\<close> with \<open>Inl\<close> for the exception. A method of a
  controller is run against the controller (\<open>self\<close>) and the ambient state it can touch
  (the global random generator, the terminal) and returns them after the call, so that
  what a method leaves alone is a statement about its result. The methods of the
  network read its parameters; \<open>save\<close> and \<open>load\<close> take the file system.
  Tensor entries are float32 in the source; they are real numbers here, and no theorem
  below depends on a rounded value.
\<close>

subsection \<open>Exceptions, actions, game states\<close>

datatype py_error =
    KeyError | TypeError | IndexError | ValueError | RuntimeError
  | EOFError | FileNotFoundError | UnpicklingError

text \<open>
  \<^verbatim>\<open>Action\<close> and \<^verbatim>\<open>TetrisState\<close> come from the game engine. The code reads
  \<^verbatim>\<open>action.id\<close>, \<^verbatim>\<open>state.to_tensor()\<close>, \<^verbatim>\<open>state.score\<close> and \<^verbatim>\<open>state.turn\<close>;
  \<open>label\<close> stands for whatever else an action carries.
\<close>

record Action =
  action_id :: int
  label :: string

record TetrisState =
  to_tensor :: "real list"
  score :: real
  turn :: real

text \<open>
  The constructors are annotated \<^verbatim>\<open>actions: set[Action]\<close>, and Python does not enforce
  the annotation, so the value stored in \<^verbatim>\<open>self.actions\<close> is either a set or a
  sequence. Both carry their elements in iteration order. Iterating works on both;
  subscripting a set raises \<^verbatim>\<open>TypeError\<close>, subscripting a list follows Python's
  indexing (negative indices count from the end, out of range raises \<^verbatim>\<open>IndexError\<close>).
\<close>

datatype py_actions = PySet "Action list" | PyList "Action list"

fun py_iter :: "py_actions \<Rightarrow> Action list" where
  "py_iter (PySet xs) = xs"
| "py_iter (PyList xs) = xs"

fun py_getitem :: "py_actions \<Rightarrow> int \<Rightarrow> py_error + Action" where
  "py_getitem (PySet xs) i = Inl TypeError"
| "py_getitem (PyList xs) i =
     (if 0 \<le> i \<and> i < int (length xs) then Inr (xs ! nat i)
      else if - int (length xs) \<le> i \<and> i < 0 then Inr (xs ! nat (int (length xs) + i))
      else Inl IndexError)"

subsection \<open>Controller\<close>

text \<open>
  \<^verbatim>\<open>self.action_map = {action.id: action for action in actions}\<close>: the comprehension
  stores the actions one after the other, a later action replacing an earlier one with
  the same id.
\<close>

record Controller =
  actions :: py_actions
  action_map :: "int \<rightharpoonup> Action"

definition dict_of_actions :: "Action list \<Rightarrow> (int \<rightharpoonup> Action)" where
  "dict_of_actions xs = foldl (\<lambda>m action. m(action_id action \<mapsto> action)) Map.empty xs"

definition Controller_init :: "py_actions \<Rightarrow> Controller" where
  "Controller_init acts =
     \<lparr>actions = acts, action_map = dict_of_actions (py_iter acts)\<rparr>"

subsection \<open>HumanController\<close>

text \<open>
  Standard input is a sequence of lines that may or may not end: \<open>stdin t i\<close> is line
  \<open>i\<close>, or \<open>None\<close> once the input has ended. \<^verbatim>\<open>input(prompt)\<close> writes the prompt,
  then returns the next line or raises \<^verbatim>\<open>EOFError\<close> at the end of the input.
  \<^verbatim>\<open>print\<close> appends what it is given to the output.
\<close>

record terminal =
  stdin :: "nat \<Rightarrow> string option"
  cursor :: nat
  stdout :: "string list"

definition py_input :: "string \<Rightarrow> terminal \<Rightarrow> (py_error + string) \<times> terminal" where
  "py_input prompt t =
     (let t1 = t\<lparr>stdout := stdout t @ [prompt]\<rparr>
      in case stdin t (cursor t) of
           None \<Rightarrow> (Inl EOFError, t1)
         | Some line \<Rightarrow> (Inr line, t1\<lparr>cursor := Suc (cursor t)\<rparr>))"

definition py_print :: "string \<Rightarrow> terminal \<Rightarrow> terminal" where
  "py_print s t = t\<lparr>stdout := stdout t @ [s]\<rparr>"

record HumanController = Controller +
  input_map :: "string \<rightharpoonup> Action"

definition HumanController_init ::
  "py_actions \<Rightarrow> (string \<rightharpoonup> Action) \<Rightarrow> HumanController" where
  "HumanController_init acts imap =
     \<lparr>actions = actions (Controller_init acts),
      action_map = action_map (Controller_init acts),
      input_map = imap\<rparr>"

text \<open>
  The \<^verbatim>\<open>while True\<close> loop of \<^verbatim>\<open>get_action\<close>. Both dictionary lookups are inside the
  \<^verbatim>\<open>try\<close>, so a missing key of either one prints the message and starts the next
  round; an exception other than \<^verbatim>\<open>KeyError\<close> leaves the method. The loop need not
  end, hence the result is an option: \<open>None\<close> is the run that never returns.
\<close>

partial_function (option) HumanController_get_action ::
  "HumanController \<Rightarrow> TetrisState \<Rightarrow> terminal
     \<Rightarrow> ((py_error + Action) \<times> HumanController \<times> terminal) option" where
  "HumanController_get_action self u t =
     (case py_input ''Enter action: '' t of
        (Inl e, t1) \<Rightarrow>
          (if e = KeyError
           then HumanController_get_action self u (py_print ''Invalid action'' t1)
           else Some (Inl e, self, t1))
      | (Inr action_input, t1) \<Rightarrow>
          (case input_map self action_input of
             None \<Rightarrow> HumanController_get_action self u (py_print ''Invalid action'' t1)
           | Some action \<Rightarrow>
               (case action_map self (action_id action) of
                  None \<Rightarrow> HumanController_get_action self u (py_print ''Invalid action'' t1)
                | Some found \<Rightarrow> Some (Inr found, self, t1))))"

subsection \<open>The network\<close>

text \<open>
  A tensor is its shape and its entries in storage (row-major) order. A one-dimensional
  tensor that only passes through the computation (an input, an activation, a score
  vector) is the list of its entries.
\<close>

record tensor =
  shape :: "nat list"
  data :: "real list"

text \<open>
  \<^verbatim>\<open>nn.Linear(in_features, out_features)\<close> owns a weight of shape
  \<^verbatim>\<open>[out_features, in_features]\<close> and a bias of shape \<^verbatim>\<open>[out_features]\<close>. The
  framework draws their initial entries; \<open>w0\<close> and \<open>b0\<close> give the drawn values by
  storage position. Applying the layer to a vector \<open>x\<close> computes \<open>W x + b\<close> and
  raises \<^verbatim>\<open>RuntimeError\<close> when the sizes do not fit.
\<close>

record Linear =
  weight :: tensor
  bias :: tensor

definition nn_Linear :: "nat \<Rightarrow> nat \<Rightarrow> (nat \<Rightarrow> real) \<Rightarrow> (nat \<Rightarrow> real) \<Rightarrow> Linear" where
  "nn_Linear in_features out_features w0 b0 =
     \<lparr>weight = \<lparr>shape = [out_features, in_features],
                 data = map w0 [0..<out_features * in_features]\<rparr>,
      bias = \<lparr>shape = [out_features], data = map b0 [0..<out_features]\<rparr>\<rparr>"

definition dot :: "real list \<Rightarrow> real list \<Rightarrow> real" where
  "dot xs ys = sum_list (map2 (*) xs ys)"

definition Linear_forward :: "Linear \<Rightarrow> real list \<Rightarrow> py_error + real list" where
  "Linear_forward self x =
     (case shape (weight self) of
        [out, inp] \<Rightarrow>
          if length x = inp \<and> shape (bias self) = [out]
          then Inr (map (\<lambda>r. dot (take inp (drop (r * inp) (data (weight self)))) x
                               + data (bias self) ! r) [0..<out])
          else Inl RuntimeError
      | _ \<Rightarrow> Inl RuntimeError)"

definition torch_relu :: "real list \<Rightarrow> real list" where
  "torch_relu xs = map (\<lambda>v. max 0 v) xs"

definition nn_Softmax :: "real list \<Rightarrow> real list" where
  "nn_Softmax xs = map (\<lambda>v. exp v / sum_list (map exp xs)) xs"

record DQN =
  fc1 :: Linear
  fc2 :: Linear
  fc3 :: Linear

text \<open>\<open>init name\<close> gives the initial entries of the parameter called \<open>name\<close>.\<close>

definition DQN_init :: "nat \<Rightarrow> nat \<Rightarrow> (string \<Rightarrow> nat \<Rightarrow> real) \<Rightarrow> DQN" where
  "DQN_init input_size output_size init =
     \<lparr>fc1 = nn_Linear input_size 128 (init ''fc1.weight'') (init ''fc1.bias''),
      fc2 = nn_Linear 128 64 (init ''fc2.weight'') (init ''fc2.bias''),
      fc3 = nn_Linear 64 output_size (init ''fc3.weight'') (init ''fc3.bias'')\<rparr>"

definition DQN_forward :: "DQN \<Rightarrow> real list \<Rightarrow> py_error + real list" where
  "DQN_forward self x =
     (case Linear_forward (fc1 self) x of
        Inl e \<Rightarrow> Inl e
      | Inr h1 \<Rightarrow>
          (case Linear_forward (fc2 self) (torch_relu h1) of
             Inl e \<Rightarrow> Inl e
           | Inr h2 \<Rightarrow>
               (case Linear_forward (fc3 self) (torch_relu h2) of
                  Inl e \<Rightarrow> Inl e
                | Inr h3 \<Rightarrow> Inr (nn_Softmax h3))))"


subsection \<open>Checkpoints\<close>

text \<open>
  \<^verbatim>\<open>state_dict()\<close> lists the parameters under their names. A file holds either a
  pickled state dictionary or bytes that do not unpickle. \<^verbatim>\<open>torch.save\<close> replaces the
  file at the path; \<^verbatim>\<open>torch.load\<close> raises when the file is missing or does not
  unpickle; \<^verbatim>\<open>load_state_dict\<close> (strict) raises \<^verbatim>\<open>RuntimeError\<close> on an unexpected
  key, a missing key or a parameter of another shape, and otherwise copies every
  parameter. What is left of the network after a failed load is not modelled.
\<close>

type_synonym state_dict = "(string \<times> tensor) list"

datatype file_content = Pickled state_dict | Bytes string

type_synonym filesystem = "string \<rightharpoonup> file_content"

definition DQN_state_dict :: "DQN \<Rightarrow> state_dict" where
  "DQN_state_dict self =
     [(''fc1.weight'', weight (fc1 self)), (''fc1.bias'', bias (fc1 self)),
      (''fc2.weight'', weight (fc2 self)), (''fc2.bias'', bias (fc2 self)),
      (''fc3.weight'', weight (fc3 self)), (''fc3.bias'', bias (fc3 self))]"

definition load_param :: "state_dict \<Rightarrow> string \<Rightarrow> tensor \<Rightarrow> py_error + tensor" where
  "load_param sd key own =
     (case map_of sd key of
        None \<Rightarrow> Inl RuntimeError
      | Some p \<Rightarrow> if shape p = shape own then Inr p else Inl RuntimeError)"

definition load_Linear :: "state_dict \<Rightarrow> string \<Rightarrow> Linear \<Rightarrow> py_error + Linear" where
  "load_Linear sd prefix own =
     (case load_param sd (prefix @ ''.weight'') (weight own) of
        Inl e \<Rightarrow> Inl e
      | Inr w \<Rightarrow>
          (case load_param sd (prefix @ ''.bias'') (bias own) of
             Inl e \<Rightarrow> Inl e
           | Inr b \<Rightarrow> Inr \<lparr>weight = w, bias = b\<rparr>))"

definition DQN_load_state_dict :: "DQN \<Rightarrow> state_dict \<Rightarrow> py_error + DQN" where
  "DQN_load_state_dict self sd =
     (if \<not> set (map fst sd) \<subseteq> set (map fst (DQN_state_dict self)) then Inl RuntimeError
      else case load_Linear sd ''fc1'' (fc1 self) of
        Inl e \<Rightarrow> Inl e
      | Inr l1 \<Rightarrow>
          (case load_Linear sd ''fc2'' (fc2 self) of
             Inl e \<Rightarrow> Inl e
           | Inr l2 \<Rightarrow>
               (case load_Linear sd ''fc3'' (fc3 self) of
                  Inl e \<Rightarrow> Inl e
                | Inr l3 \<Rightarrow> Inr \<lparr>fc1 = l1, fc2 = l2, fc3 = l3\<rparr>)))"

definition DQN_save :: "DQN \<Rightarrow> string \<Rightarrow> filesystem \<Rightarrow> filesystem" where
  "DQN_save self path fs = fs(path \<mapsto> Pickled (DQN_state_dict self))"

definition DQN_load :: "DQN \<Rightarrow> string \<Rightarrow> filesystem \<Rightarrow> py_error + DQN" where
  "DQN_load self path fs =
     (case fs path of
        None \<Rightarrow> Inl FileNotFoundError
      | Some (Bytes b) \<Rightarrow> Inl UnpicklingError
      | Some (Pickled sd) \<Rightarrow> DQN_load_state_dict self sd)"

subsection \<open>Library operations used by the DQN controllers\<close>

text \<open>
  numpy's global generator is a sequence of raw outputs and the number of outputs taken
  so far. \<^verbatim>\<open>np.random.rand()\<close> turns one output into a float with 53 random bits in
  \<open>[0, 1)\<close>. \<^verbatim>\<open>np.random.choice(a)\<close> raises \<^verbatim>\<open>ValueError\<close> on an empty \<open>a\<close> and
  otherwise returns the entry at a position that one output selects (the entries are
  objects that numpy keeps as they are). That the draws are uniform is a property of
  the sequence, not of the code that takes them.
\<close>

record np_random =
  raw :: "nat \<Rightarrow> nat"
  taken :: nat

definition np_random_rand :: "np_random \<Rightarrow> real \<times> np_random" where
  "np_random_rand g =
     (real (raw g (taken g) mod 2 ^ 53) / 2 ^ 53, g\<lparr>taken := Suc (taken g)\<rparr>)"

definition np_random_choice :: "'a list \<Rightarrow> np_random \<Rightarrow> (py_error + 'a) \<times> np_random" where
  "np_random_choice a g =
     (if a = [] then (Inl ValueError, g)
      else (Inr (a ! (raw g (taken g) mod length a)), g\<lparr>taken := Suc (taken g)\<rparr>))"

text \<open>
  \<^verbatim>\<open>torch.argmax\<close> of a vector is the position of its maximum, the first one when the
  maximum occurs several times; \<^verbatim>\<open>torch.max\<close> is the maximum. Both raise on a vector
  without entries.
\<close>

fun argmax_scan :: "nat \<Rightarrow> real \<Rightarrow> nat \<Rightarrow> real list \<Rightarrow> nat" where
  "argmax_scan best_i best_v i [] = best_i"
| "argmax_scan best_i best_v i (v # vs) =
     (if best_v < v then argmax_scan i v (Suc i) vs
      else argmax_scan best_i best_v (Suc i) vs)"

definition torch_argmax :: "real list \<Rightarrow> py_error + nat" where
  "torch_argmax q = (case q of [] \<Rightarrow> Inl IndexError | v # vs \<Rightarrow> Inr (argmax_scan 0 v 1 vs))"

definition torch_max :: "real list \<Rightarrow> py_error + real" where
  "torch_max q = (case q of [] \<Rightarrow> Inl RuntimeError | v # vs \<Rightarrow> Inr (foldl max v vs))"

text \<open>
  The scores a module returns are float32 values: finite numbers, the two infinities and
  NaN, compared as IEEE arithmetic compares them. \<^verbatim>\<open>torch.argmax\<close> walks through the
  entries and keeps the best one seen so far; the framework's comparison for it counts a
  NaN as greater than every other value and lets the earlier of two equal entries win.
\<close>

datatype f32 = NaN | NegInf | Fin real | PosInf

fun f32_less :: "f32 \<Rightarrow> f32 \<Rightarrow> bool" where
  "f32_less (Fin x) (Fin y) = (x < y)"
| "f32_less NegInf (Fin y) = True"
| "f32_less NegInf PosInf = True"
| "f32_less (Fin x) PosInf = True"
| "f32_less a b = False"

definition f32_equal :: "f32 \<Rightarrow> f32 \<Rightarrow> bool" where
  "f32_equal a b \<longleftrightarrow> a \<noteq> NaN \<and> a = b"

definition greater_or_nan :: "f32 \<Rightarrow> f32 \<Rightarrow> bool" where
  "greater_or_nan a b =
     (if a = NaN then True else if f32_equal a b then True else f32_less b a)"

fun argmax_f32_scan :: "nat \<Rightarrow> f32 \<Rightarrow> nat \<Rightarrow> f32 list \<Rightarrow> nat" where
  "argmax_f32_scan best_i best_v i [] = best_i"
| "argmax_f32_scan best_i best_v i (v # vs) =
     (if greater_or_nan best_v v then argmax_f32_scan best_i best_v (Suc i) vs
      else argmax_f32_scan i v (Suc i) vs)"

definition torch_argmax_f32 :: "f32 list \<Rightarrow> py_error + nat" where
  "torch_argmax_f32 q =
     (case q of [] \<Rightarrow> Inl IndexError | v # vs \<Rightarrow> Inr (argmax_f32_scan 0 v 1 vs))"

text \<open>
  \<^verbatim>\<open>t[i] = v\<close> on a vector: Python's indexing, \<^verbatim>\<open>IndexError\<close> out of range.
  \<^verbatim>\<open>nn.MSELoss()\<close> is the mean of the squared differences.
\<close>

definition tensor_setitem :: "real list \<Rightarrow> int \<Rightarrow> real \<Rightarrow> py_error + real list" where
  "tensor_setitem t i v =
     (if 0 \<le> i \<and> i < int (length t) then Inr (t[nat i := v])
      else if - int (length t) \<le> i \<and> i < 0 then Inr (t[nat (int (length t) + i) := v])
      else Inl IndexError)"

definition nn_MSELoss :: "real list \<Rightarrow> real list \<Rightarrow> real" where
  "nn_MSELoss xs ys = sum_list (map2 (\<lambda>x y. (x - y)\<^sup>2) xs ys) / real (length xs)"

text \<open>
  \<^verbatim>\<open>optim.Adam(params, lr)\<close> with the defaults it has for everything but the learning
  rate: \<open>betas = (0.9, 0.999)\<close>, \<open>eps = 1e-8\<close>, no weight decay. A new optimizer has
  taken no step and its two moment estimates are zero. \<^verbatim>\<open>step()\<close> updates every entry
  of every parameter from the entry of the gradient at the same place.
\<close>

record Adam =
  lr :: real
  beta1 :: real
  beta2 :: real
  eps :: real
  step_count :: nat
  exp_avg :: "real list list"
  exp_avg_sq :: "real list list"

definition optim_Adam :: "tensor list \<Rightarrow> real \<Rightarrow> Adam" where
  "optim_Adam params lr0 =
     \<lparr>lr = lr0, beta1 = 9 / 10, beta2 = 999 / 1000, eps = 1 / 10 ^ 8, step_count = 0,
      exp_avg = map (\<lambda>p. replicate (length (data p)) 0) params,
      exp_avg_sq = map (\<lambda>p. replicate (length (data p)) 0) params\<rparr>"

definition adam_entry :: "Adam \<Rightarrow> nat \<Rightarrow> real \<Rightarrow> real \<times> real \<Rightarrow> real" where
  "adam_entry opt t p mv =
     (let bias_correction1 = 1 - beta1 opt ^ t;
          bias_correction2 = 1 - beta2 opt ^ t;
          step_size = lr opt / bias_correction1;
          denom = sqrt (snd mv) / sqrt bias_correction2 + eps opt
      in p - step_size * (fst mv / denom))"

definition Adam_step :: "Adam \<Rightarrow> real list list \<Rightarrow> tensor list \<Rightarrow> tensor list \<times> Adam" where
  "Adam_step opt grads params =
     (let t = Suc (step_count opt);
          ms = map2 (map2 (\<lambda>m g. beta1 opt * m + (1 - beta1 opt) * g)) (exp_avg opt) grads;
          vs = map2 (map2 (\<lambda>v g. beta2 opt * v + (1 - beta2 opt) * (g * g)))
                 (exp_avg_sq opt) grads;
          params' = map2 (\<lambda>p mv. p\<lparr>data := map2 (adam_entry opt t) (data p)
                                                   (zip (fst mv) (snd mv))\<rparr>)
                      params (zip ms vs)
      in (params', opt\<lparr>step_count := t, exp_avg := ms, exp_avg_sq := vs\<rparr>))"

definition DQN_parameters :: "DQN \<Rightarrow> tensor list" where
  "DQN_parameters self =
     [weight (fc1 self), bias (fc1 self), weight (fc2 self), bias (fc2 self),
      weight (fc3 self), bias (fc3 self)]"

text \<open>The optimizer writes into the tensors of the network; this puts them back.\<close>

definition DQN_with_parameters :: "DQN \<Rightarrow> tensor list \<Rightarrow> DQN" where
  "DQN_with_parameters self ps =
     (case ps of
        [w1, b1, w2, b2, w3, b3] \<Rightarrow>
          \<lparr>fc1 = \<lparr>weight = w1, bias = b1\<rparr>, fc2 = \<lparr>weight = w2, bias = b2\<rparr>,
           fc3 = \<lparr>weight = w3, bias = b3\<rparr>\<rparr>
      | _ \<Rightarrow> self)"

subsection \<open>DQNTrainerController\<close>

record DQNTrainerController = Controller +
  model :: DQN
  epsilon :: real

definition DQNTrainerController_init ::
  "py_actions \<Rightarrow> DQN \<Rightarrow> real \<Rightarrow> DQNTrainerController" where
  "DQNTrainerController_init acts net eps0 =
     \<lparr>actions = actions (Controller_init acts),
      action_map = action_map (Controller_init acts),
      model = net, epsilon = eps0\<rparr>"

text \<open>
  The constructor accepts any module. What the framework computes for
  \<^verbatim>\<open>self.model(state_tensor)\<close> is a vector of float32 scores, which need not be the
  exact values of \<open>DQN_forward\<close>; in \<open>get_action\<close> below, \<open>call\<close> stands for that
  evaluation of the module.
\<close>

definition DQNTrainerController_get_action_on ::
  "(DQN \<Rightarrow> real list \<Rightarrow> py_error + f32 list)
     \<Rightarrow> DQNTrainerController \<Rightarrow> TetrisState \<Rightarrow> np_random
     \<Rightarrow> (py_error + Action) \<times> DQNTrainerController \<times> np_random" where
  "DQNTrainerController_get_action_on call self state g =
     (case np_random_rand g of
        (u, g1) \<Rightarrow>
          if u < epsilon self
          then (case np_random_choice (py_iter (actions self)) g1 of
                  (r, g2) \<Rightarrow> (r, self, g2))
          else (case call (DQNTrainerController.model self) (to_tensor state) of
                  Inl e \<Rightarrow> (Inl e, self, g1)
                | Inr q_values \<Rightarrow>
                    (case torch_argmax_f32 q_values of
                       Inl e \<Rightarrow> (Inl e, self, g1)
                     | Inr i \<Rightarrow>
                         (case action_map self (int i) of
                            None \<Rightarrow> (Inl KeyError, self, g1)
                          | Some a \<Rightarrow> (Inr a, self, g1)))))"

text \<open>
  The evaluation of the network in exact arithmetic, and \<open>get_action\<close> for it.
\<close>

definition exact_call :: "DQN \<Rightarrow> real list \<Rightarrow> py_error + f32 list" where
  "exact_call net x = (case DQN_forward net x of Inl e \<Rightarrow> Inl e | Inr q \<Rightarrow> Inr (map Fin q))"

definition DQNTrainerController_get_action ::
  "DQNTrainerController \<Rightarrow> TetrisState \<Rightarrow> np_random
     \<Rightarrow> (py_error + Action) \<times> DQNTrainerController \<times> np_random" where
  "DQNTrainerController_get_action self state g =
     DQNTrainerController_get_action_on exact_call self state g"

text \<open>
  Lines 79 to 87 of \<^verbatim>\<open>train\<close> as a function of the network: the loss the call builds.
  \<^verbatim>\<open>loss.backward()\<close> is the framework's automatic differentiation; \<open>backward\<close>
  stands for it and returns, for the loss as a function of the network and for the
  current network, one gradient per parameter.
\<close>

definition td_target ::
  "real list \<Rightarrow> real list \<Rightarrow> Action \<Rightarrow> real \<Rightarrow> py_error + real list" where
  "td_target q_values next_q_values action reward =
     (case torch_max next_q_values of
        Inl e \<Rightarrow> Inl e
      | Inr m \<Rightarrow> tensor_setitem q_values (action_id action) (reward + m))"

definition td_loss ::
  "DQN \<Rightarrow> TetrisState \<Rightarrow> Action \<Rightarrow> TetrisState \<Rightarrow> real \<Rightarrow> py_error + real" where
  "td_loss net state action next_state reward =
     (case DQN_forward net (to_tensor state) of
        Inl e \<Rightarrow> Inl e
      | Inr q_values \<Rightarrow>
          (case DQN_forward net (to_tensor next_state) of
             Inl e \<Rightarrow> Inl e
           | Inr next_q_values \<Rightarrow>
               (case td_target q_values next_q_values action reward of
                  Inl e \<Rightarrow> Inl e
                | Inr target_q_values \<Rightarrow> Inr (nn_MSELoss q_values target_q_values))))"

definition DQNTrainerController_train ::
  "((DQN \<Rightarrow> py_error + real) \<Rightarrow> DQN \<Rightarrow> real list list)
     \<Rightarrow> DQNTrainerController \<Rightarrow> TetrisState \<Rightarrow> Action \<Rightarrow> TetrisState \<Rightarrow> real
     \<Rightarrow> (py_error + unit) \<times> DQNTrainerController" where
  "DQNTrainerController_train backward self state action next_state reward =
     (case td_loss (model self) state action next_state reward of
        Inl e \<Rightarrow> (Inl e, self)
      | Inr loss \<Rightarrow>
          (let optimizer = optim_Adam (DQN_parameters (model self)) (1 / 1000);
               grads = backward (\<lambda>net. td_loss net state action next_state reward) (model self);
               stepped = Adam_step optimizer grads (DQN_parameters (model self))
           in (Inr (), self\<lparr>model := DQN_with_parameters (model self) (fst stepped)\<rparr>)))"

definition DQNTrainerController_evaluate ::
  "DQNTrainerController \<Rightarrow> TetrisState \<Rightarrow> real \<times> DQNTrainerController" where
  "DQNTrainerController_evaluate self state = (score state + turn state, self)"

subsection \<open>DQNPlayerController\<close>

record DQNPlayerController = Controller +
  model :: DQN

definition DQNPlayerController_init :: "py_actions \<Rightarrow> DQN \<Rightarrow> DQNPlayerController" where
  "DQNPlayerController_init acts net =
     \<lparr>actions = actions (Controller_init acts),
      action_map = action_map (Controller_init acts),
      model = net\<rparr>"

text \<open>The last line subscripts \<^verbatim>\<open>self.actions\<close>, not \<^verbatim>\<open>self.action_map\<close>.\<close>

definition DQNPlayerController_get_action ::
  "DQNPlayerController \<Rightarrow> TetrisState \<Rightarrow> np_random
     \<Rightarrow> (py_error + Action) \<times> DQNPlayerController \<times> np_random" where
  "DQNPlayerController_get_action self state g =
     (case DQN_forward (DQNPlayerController.model self) (to_tensor state) of
        Inl e \<Rightarrow> (Inl e, self, g)
      | Inr q_values \<Rightarrow>
          (case torch_argmax q_values of
             Inl e \<Rightarrow> (Inl e, self, g)
           | Inr i \<Rightarrow> (py_getitem (actions self) (int i), self, g)))"

subsection \<open>Notions used in the statements\<close>

text \<open>
  What a token typed at the prompt resolves to, the terminal after a token that did not
  resolve (the prompt and the error message written, the token consumed), what a
  returning call of the human controller can hand back, and a standard input that
  holds the given lines and then ends.
\<close>

definition resolves :: "HumanController \<Rightarrow> string \<Rightarrow> Action option" where
  "resolves self tok =
     (case input_map self tok of
        None \<Rightarrow> None
      | Some action \<Rightarrow> action_map self (action_id action))"

definition rejected :: "terminal \<Rightarrow> terminal" where
  "rejected t = t\<lparr>cursor := Suc (cursor t),
                  stdout := stdout t @ [''Enter action: '', ''Invalid action'']\<rparr>"

definition human_result_ok ::
  "HumanController \<Rightarrow> (py_error + Action) \<times> HumanController \<times> terminal \<Rightarrow> bool" where
  "human_result_ok self y \<longleftrightarrow>
     fst (snd y) = self \<and>
     (case fst y of
        Inl e \<Rightarrow> e = EOFError
      | Inr a \<Rightarrow> \<exists>tok action. input_map self tok = Some action \<and>
                               action_map self (action_id action) = Some a)"

definition stdin_of_list :: "string list \<Rightarrow> nat \<Rightarrow> string option" where
  "stdin_of_list ls i = (if i < length ls then Some (ls ! i) else None)"

text \<open>The actions, the game state and the controllers of the examples.\<close>

definition Left :: Action where "Left = \<lparr>action_id = 0, label = ''Left''\<rparr>"
definition Right :: Action where "Right = \<lparr>action_id = 1, label = ''Right''\<rparr>"
definition Drop :: Action where "Drop = \<lparr>action_id = 2, label = ''Drop''\<rparr>"

definition idle :: TetrisState where
  "idle = \<lparr>to_tensor = [], score = 0, turn = 0\<rparr>"

definition lr_human :: HumanController where
  "lr_human = HumanController_init (PySet [Left, Right, Drop]) [''l'' \<mapsto> Left, ''r'' \<mapsto> Right]"

definition lrd_human :: HumanController where
  "lrd_human = HumanController_init (PySet [Left, Right])
     [''l'' \<mapsto> Left, ''r'' \<mapsto> Right, ''d'' \<mapsto> Drop]"

text \<open>
  The shapes that \<open>DQN_init\<close> gives the parameters of a network with the given input
  and output sizes, each tensor holding as many entries as its shape says.
\<close>

definition Linear_shaped :: "nat \<Rightarrow> nat \<Rightarrow> Linear \<Rightarrow> bool" where
  "Linear_shaped inp out l \<longleftrightarrow>
     shape (weight l) = [out, inp] \<and> length (data (weight l)) = out * inp \<and>
     shape (bias l) = [out] \<and> length (data (bias l)) = out"

definition DQN_shaped :: "nat \<Rightarrow> nat \<Rightarrow> DQN \<Rightarrow> bool" where
  "DQN_shaped input_size output_size self \<longleftrightarrow>
     Linear_shaped input_size 128 (fc1 self) \<and>
     Linear_shaped 128 64 (fc2 self) \<and>
     Linear_shaped 64 output_size (fc3 self)"

text \<open>
  A network for ten features and three actions whose parameters are zero except the
  bias of the last layer for the second action; a state of ten zeros; and a generator
  whose outputs are 4, 5, 6 and so on.
\<close>

definition example_net :: DQN where
  "example_net = DQN_init 10 3 (\<lambda>name k. if name = ''fc3.bias'' \<and> k = 1 then 1 else 0)"

definition example_state :: TetrisState where
  "example_state = \<lparr>to_tensor = replicate 10 0, score = 0, turn = 0\<rparr>"

definition dice :: np_random where
  "dice = \<lparr>raw = (\<lambda>i. i + 4), taken = 0\<rparr>"

text \<open>A second network of the same architecture, all parameters one.\<close>

definition ones_net :: DQN where
  "ones_net = DQN_init 10 3 (\<lambda>name k. 1)"





text \<open>
  Further examples: a network with five outputs and one with a single output, all
  parameters zero; an action with the id 3; and the gradients of a loss that does not
  depend on the parameters.
\<close>

definition wide_net :: DQN where
  "wide_net = DQN_init 10 5 (\<lambda>name k. 0)"


definition Hold :: Action where "Hold = \<lparr>action_id = 3, label = ''Hold''\<rparr>"

definition zero_backward :: "(DQN \<Rightarrow> py_error + real) \<Rightarrow> DQN \<Rightarrow> real list list" where
  "zero_backward loss net = map (\<lambda>p. replicate (length (data p)) 0) (DQN_parameters net)"

section \<open>Properties\<close>

subsection \<open>Float32 scores\<close>








lemma torch_argmax_f32_cases:
  "torch_argmax_f32 q = (if q = [] then Inl IndexError else Inr (argmax_f32_scan 0 (hd q) 1 (tl q)))"
  by (cases q) (simp_all add: torch_argmax_f32_def)

lemma argmax_f32_scan_Fin:
  "argmax_f32_scan bi (Fin bv) i (map Fin vs) = argmax_scan bi bv i vs"
proof (induction vs arbitrary: bi bv i)
  case Nil
  show ?case by simp
next
  case (Cons v vs)
  have "greater_or_nan (Fin bv) (Fin v) \<longleftrightarrow> \<not> bv < v"
    by (auto simp: greater_or_nan_def f32_equal_def)
  with Cons show ?case by simp
qed

lemma torch_argmax_f32_Fin: "torch_argmax_f32 (map Fin q) = torch_argmax q"
  by (cases q) (simp_all add: torch_argmax_f32_def torch_argmax_def argmax_f32_scan_Fin)

text \<open>
  For the evaluation in exact arithmetic \<open>get_action\<close> of the trainer reads as the
  source does, with the exact scores in the place of the float32 ones.
\<close>

lemma DQNTrainerController_get_action_exact:
  "DQNTrainerController_get_action self state g =
     (case np_random_rand g of
        (u, g1) \<Rightarrow>
          if u < epsilon self
          then (case np_random_choice (py_iter (actions self)) g1 of
                  (r, g2) \<Rightarrow> (r, self, g2))
          else (case DQN_forward (DQNTrainerController.model self) (to_tensor state) of
                  Inl e \<Rightarrow> (Inl e, self, g1)
                | Inr q_values \<Rightarrow>
                    (case torch_argmax q_values of
                       Inl e \<Rightarrow> (Inl e, self, g1)
                     | Inr i \<Rightarrow>
                         (case action_map self (int i) of
                            None \<Rightarrow> (Inl KeyError, self, g1)
                          | Some a \<Rightarrow> (Inr a, self, g1)))))"
  by (simp add: DQNTrainerController_get_action_def DQNTrainerController_get_action_on_def
        exact_call_def torch_argmax_f32_Fin split: prod.splits sum.splits)

subsection \<open>The action map\<close>

lemma dict_of_actions_snoc:
  "dict_of_actions (xs @ [x]) = (dict_of_actions xs)(action_id x \<mapsto> x)"
  by (simp add: dict_of_actions_def)

lemma dict_of_actions_Nil: "dict_of_actions [] = Map.empty"
  by (simp add: dict_of_actions_def)

lemma dict_of_actions_Some:
  "dict_of_actions xs k = Some a \<Longrightarrow> a \<in> set xs \<and> action_id a = k"
proof (induction xs arbitrary: a rule: rev_induct)
  case Nil
  then show ?case by (simp add: dict_of_actions_Nil)
next
  case (snoc x xs)
  then show ?case
    by (cases "action_id x = k") (auto simp: dict_of_actions_snoc)
qed

lemma dict_of_actions_dom: "dom (dict_of_actions xs) = action_id ` set xs"
proof (induction xs rule: rev_induct)
  case Nil
  then show ?case by (simp add: dict_of_actions_Nil)
next
  case (snoc x xs)
  have "dom (dict_of_actions (xs @ [x])) = insert (action_id x) (dom (dict_of_actions xs))"
    by (simp add: dict_of_actions_snoc)
  with snoc show ?case by simp
qed

lemma dict_of_actions_distinct:
  "distinct (map action_id xs) \<Longrightarrow> a \<in> set xs \<Longrightarrow> dict_of_actions xs (action_id a) = Some a"
proof (induction xs rule: rev_induct)
  case Nil
  then show ?case by simp
next
  case (snoc x xs)
  show ?case
  proof (cases "a = x")
    case True
    then show ?thesis by (simp add: dict_of_actions_snoc)
  next
    case False
    with snoc.prems have mem: "a \<in> set xs"
      by simp
    from snoc.prems have "action_id x \<notin> action_id ` set xs"
      by simp
    with mem have ne: "action_id a \<noteq> action_id x"
      by (metis imageI)
    from snoc.prems have "distinct (map action_id xs)"
      by simp
    with snoc.IH mem ne show ?thesis
      by (simp add: dict_of_actions_snoc)
  qed
qed

lemma action_map_inits:
  "action_map (Controller_init acts) = dict_of_actions (py_iter acts)"
  "action_map (HumanController_init acts imap) = dict_of_actions (py_iter acts)"
  "action_map (DQNTrainerController_init acts net e) = dict_of_actions (py_iter acts)"
  "action_map (DQNPlayerController_init acts net) = dict_of_actions (py_iter acts)"
  by (simp_all add: Controller_init_def HumanController_init_def
        DQNTrainerController_init_def DQNPlayerController_init_def)

lemma trainer_get_action_self:
  "fst (snd (DQNTrainerController_get_action self state g)) = self"
  by (simp add: DQNTrainerController_get_action_exact
           split: prod.splits sum.splits option.splits)

lemma player_get_action_frame:
  "snd (DQNPlayerController_get_action self state g) = (self, g)"
  by (simp add: DQNPlayerController_get_action_def split: sum.splits)

lemma train_action_map:
  "action_map (snd (DQNTrainerController_train backward self state action next_state reward))
     = action_map self"
  by (simp add: DQNTrainerController_train_def Let_def split: sum.splits)

subsection \<open>The retry loop of the human controller\<close>

lemma get_action_reject:
  "stdin t (cursor t) = Some tok \<Longrightarrow> resolves self tok = None \<Longrightarrow>
   HumanController_get_action self u t = HumanController_get_action self u (rejected t)"
  by (subst HumanController_get_action.simps)
     (auto simp: py_input_def py_print_def resolves_def rejected_def Let_def split: option.splits)

lemma get_action_accept:
  "stdin t (cursor t) = Some tok \<Longrightarrow> resolves self tok = Some a \<Longrightarrow>
   HumanController_get_action self u t =
     Some (Inr a, self, t\<lparr>cursor := Suc (cursor t), stdout := stdout t @ [''Enter action: '']\<rparr>)"
  by (subst HumanController_get_action.simps)
     (auto simp: py_input_def py_print_def resolves_def Let_def split: option.splits)

lemma get_action_eof:
  "stdin t (cursor t) = None \<Longrightarrow>
   HumanController_get_action self u t =
     Some (Inl EOFError, self, t\<lparr>stdout := stdout t @ [''Enter action: '']\<rparr>)"
  by (subst HumanController_get_action.simps)
     (auto simp: py_input_def py_print_def Let_def)

lemma stdin_rejected [simp]: "stdin (rejected t) = stdin t"
  and cursor_rejected [simp]: "cursor (rejected t) = Suc (cursor t)"
  and stdout_rejected [simp]:
    "stdout (rejected t) = stdout t @ [''Enter action: '', ''Invalid action'']"
  by (simp_all add: rejected_def)

lemma stdin_rejected_pow: "stdin ((rejected ^^ n) t) = stdin t"
  by (induction n) simp_all

lemma cursor_rejected_pow: "cursor ((rejected ^^ n) t) = cursor t + n"
  by (induction n) simp_all

lemma stdout_rejected_pow:
  "stdout ((rejected ^^ n) t) =
     stdout t @ concat (replicate n [''Enter action: '', ''Invalid action''])"
proof (induction n)
  case 0
  show ?case by simp
next
  case (Suc n)
  have "replicate (Suc n) [''Enter action: '', ''Invalid action'']
      = replicate n [''Enter action: '', ''Invalid action'']
          @ [[''Enter action: '', ''Invalid action'']]"
    by (simp only: replicate_Suc replicate_append_same)
  with Suc show ?case by simp
qed

lemma get_action_reject_pow:
  "(\<And>i. i < n \<Longrightarrow> \<exists>tok. stdin t (cursor t + i) = Some tok \<and> resolves self tok = None) \<Longrightarrow>
   HumanController_get_action self u t = HumanController_get_action self u ((rejected ^^ n) t)"
proof (induction n)
  case 0
  show ?case by simp
next
  case (Suc n)
  from Suc.prems [of n] obtain tok
    where tok: "stdin t (cursor t + n) = Some tok" "resolves self tok = None"
    by auto
  have "HumanController_get_action self u t
      = HumanController_get_action self u ((rejected ^^ n) t)"
    using Suc.prems by (intro Suc.IH) simp
  also have "\<dots> = HumanController_get_action self u (rejected ((rejected ^^ n) t))"
    using tok by (intro get_action_reject [of _ tok]) (simp_all add: stdin_rejected_pow cursor_rejected_pow)
  finally show ?case by simp
qed

lemma get_action_ignores_le:
  assumes "HumanController_get_action self u t = Some y"
  shows "HumanController_get_action self u' t = Some y"
proof (rule HumanController_get_action.raw_induct
         [where P = "\<lambda>self u t y. HumanController_get_action self u' t = Some y",
          OF _ assms], goal_cases)
  case (1 loop self u t y)
  show ?case
    using 1(2)
    by (subst HumanController_get_action.simps)
       (auto split: prod.splits sum.splits option.splits if_splits dest: 1(1))
qed

lemma get_action_ignores:
  "HumanController_get_action self u t = HumanController_get_action self u' t"
proof (cases "HumanController_get_action self u t")
  case None
  show ?thesis
  proof (cases "HumanController_get_action self u' t")
    case None
    with \<open>HumanController_get_action self u t = None\<close> show ?thesis by simp
  next
    case (Some y)
    then have "HumanController_get_action self u t = Some y"
      by (rule get_action_ignores_le)
    with None show ?thesis by simp
  qed
next
  case (Some y)
  then have "HumanController_get_action self u' t = Some y"
    by (rule get_action_ignores_le)
  with Some show ?thesis by simp
qed

lemma get_action_returns:
  assumes "HumanController_get_action self u t = Some y"
  shows "human_result_ok self y"
proof (rule HumanController_get_action.raw_induct
         [where P = "\<lambda>self u t y. human_result_ok self y", OF _ assms], goal_cases)
  case (1 loop self u t y)
  show ?case
    using 1(2)
    by (auto simp: py_input_def Let_def human_result_ok_def
             split: prod.splits sum.splits option.splits if_splits dest: 1(1))
       blast
qed

lemma rejected_pow_eq:
  "(rejected ^^ n) t =
     t\<lparr>cursor := cursor t + n,
       stdout := stdout t @ concat (replicate n [''Enter action: '', ''Invalid action''])\<rparr>"
  by (rule terminal.equality)
     (simp_all add: stdin_rejected_pow cursor_rejected_pow stdout_rejected_pow)

lemma get_action_forever_aux:
  assumes "HumanController_get_action self u t = Some y"
  shows "\<exists>i. \<forall>tok. stdin t (cursor t + i) = Some tok \<longrightarrow> resolves self tok \<noteq> None"
proof (rule HumanController_get_action.raw_induct
         [where P = "\<lambda>self u t y.
            \<exists>i. \<forall>tok. stdin t (cursor t + i) = Some tok \<longrightarrow> resolves self tok \<noteq> None",
          OF _ assms], goal_cases)
  case (1 loop self u t y)
  show ?case
  proof (cases "\<exists>tok. stdin t (cursor t) = Some tok \<and> resolves self tok = None")
    case False
    then have "\<forall>tok. stdin t (cursor t + 0) = Some tok \<longrightarrow> resolves self tok \<noteq> None"
      by simp
    then show ?thesis by (rule exI)
  next
    case True
    then obtain tok where tok: "stdin t (cursor t) = Some tok" "resolves self tok = None"
      by blast
    have "loop self u (rejected t) = Some y"
      using 1(2) tok
      by (auto simp: py_input_def py_print_def resolves_def rejected_def Let_def
               split: option.splits)
    from 1(1) [OF this] obtain i
      where "\<forall>tok. stdin t (cursor t + Suc i) = Some tok \<longrightarrow> resolves self tok \<noteq> None"
      by auto
    then show ?thesis by (rule exI)
  qed
qed

lemma get_action_forever:
  assumes "\<forall>i. \<exists>tok. stdin t (cursor t + i) = Some tok \<and> resolves self tok = None"
  shows "HumanController_get_action self u t = None"
proof (cases "HumanController_get_action self u t")
  case None
  then show ?thesis .
next
  case (Some y)
  from get_action_forever_aux [OF Some] assms show ?thesis
    by fastforce
qed

lemma lr_human_resolves:
  "resolves lr_human ''x'' = None" "resolves lr_human ''l'' = Some Left"
  by (simp_all add: resolves_def lr_human_def HumanController_init_def Controller_init_def
        dict_of_actions_def Left_def Right_def Drop_def)

text \<open>
  \<^bold>\<open>C6.\<close> When the ids of the actions are pairwise different, the map that the
  constructor of each controller builds sends the id of every action of the set to that
  action. The map is built by the constructor only: the object that \<open>get_action\<close>
  (of all three controllers), \<open>train\<close> and \<open>evaluate\<close> leave behind has the map it had
  before the call.
\<close>

theorem action_map_lookup:
  assumes "distinct (map action_id (py_iter acts))" and "a \<in> set (py_iter acts)"
  shows "action_map (Controller_init acts) (action_id a) = Some a \<and>
         action_map (HumanController_init acts imap) (action_id a) = Some a \<and>
         action_map (DQNTrainerController_init acts net e) (action_id a) = Some a \<and>
         action_map (DQNPlayerController_init acts net) (action_id a) = Some a \<and>
         (\<forall>h u t y. HumanController_get_action h u t = Some y
            \<longrightarrow> action_map (fst (snd y)) = action_map h) \<and>
         (\<forall>c state g. action_map (fst (snd (DQNTrainerController_get_action c state g)))
            = action_map c) \<and>
         (\<forall>backward c state action next_state reward.
            action_map (snd (DQNTrainerController_train backward c state action next_state reward))
            = action_map c) \<and>
         (\<forall>c state. action_map (snd (DQNTrainerController_evaluate c state)) = action_map c) \<and>
         (\<forall>p state g. action_map (fst (snd (DQNPlayerController_get_action p state g)))
            = action_map p)"
proof -
  have look: "dict_of_actions (py_iter acts) (action_id a) = Some a"
    using assms by (rule dict_of_actions_distinct)
  have human: "action_map (fst (snd y)) = action_map h"
    if "HumanController_get_action h u t = Some y" for h u t y
    using get_action_returns [OF that] by (simp add: human_result_ok_def)
  show ?thesis
    using look human
    by (simp add: action_map_inits trainer_get_action_self player_get_action_frame
          train_action_map DQNTrainerController_evaluate_def)
qed

theorem action_map_lookup_witness:
  "distinct (map action_id (py_iter (PySet [Left, Right, Drop]))) \<and>
   Right \<in> set (py_iter (PySet [Left, Right, Drop])) \<and>
   action_map (Controller_init (PySet [Left, Right, Drop])) (action_id Right) = Some Right"
proof -
  have d: "distinct (map action_id (py_iter (PySet [Left, Right, Drop])))"
    by (simp add: Left_def Right_def Drop_def)
  have m: "Right \<in> set (py_iter (PySet [Left, Right, Drop]))"
    by simp
  from action_map_lookup [OF d m] d m show ?thesis
    by blast
qed

text \<open>
  \<^bold>\<open>C7.\<close> \<open>get_action\<close> of the human controller does not look at the state it is
  passed. When the next \<open>n\<close> tokens do not resolve, it consumes them one by one and
  prints the error message once for each; if the token after them resolves to an action
  it returns that action, having printed \<open>n\<close> error messages; if the input ends there,
  the \<^verbatim>\<open>EOFError\<close> of the read leaves the method, as only \<^verbatim>\<open>KeyError\<close> is caught. A
  \<^verbatim>\<open>KeyError\<close> never leaves it, and on an input in which no token ever resolves the call
  does not return. The input \<open>x\<close> then \<open>l\<close> with the input map \<open>{l: Left, r: Right}\<close>
  is the instance that follows the theorem.
\<close>

theorem HumanController_get_action_retry:
  assumes "\<forall>i<n. \<exists>tok. stdin t (cursor t + i) = Some tok \<and> resolves self tok = None"
  shows "HumanController_get_action self u t = HumanController_get_action self u' t \<and>
         (\<forall>tok a. stdin t (cursor t + n) = Some tok \<and> resolves self tok = Some a \<longrightarrow>
            HumanController_get_action self u t =
              Some (Inr a, self,
                    t\<lparr>cursor := cursor t + n + 1,
                      stdout := stdout t
                        @ concat (replicate n [''Enter action: '', ''Invalid action''])
                        @ [''Enter action: '']\<rparr>)) \<and>
         (stdin t (cursor t + n) = None \<longrightarrow>
            HumanController_get_action self u t =
              Some (Inl EOFError, self,
                    t\<lparr>cursor := cursor t + n,
                      stdout := stdout t
                        @ concat (replicate n [''Enter action: '', ''Invalid action''])
                        @ [''Enter action: '']\<rparr>)) \<and>
         (\<forall>y. HumanController_get_action self u t = Some y \<longrightarrow> fst y \<noteq> Inl KeyError) \<and>
         ((\<forall>i. \<exists>tok. stdin t (cursor t + i) = Some tok \<and> resolves self tok = None) \<longrightarrow>
            HumanController_get_action self u t = None)"
proof -
  let ?t = "(rejected ^^ n) t"
  have skip: "HumanController_get_action self u t = HumanController_get_action self u ?t"
    using assms by (intro get_action_reject_pow) simp
  have accept: "HumanController_get_action self u t =
      Some (Inr a, self,
            t\<lparr>cursor := cursor t + n + 1,
              stdout := stdout t
                @ concat (replicate n [''Enter action: '', ''Invalid action''])
                @ [''Enter action: '']\<rparr>)"
    if "stdin t (cursor t + n) = Some tok" "resolves self tok = Some a" for tok a
  proof -
    have "HumanController_get_action self u ?t =
        Some (Inr a, self, ?t\<lparr>cursor := Suc (cursor ?t), stdout := stdout ?t @ [''Enter action: '']\<rparr>)"
      using that by (intro get_action_accept [of _ tok]) (simp_all add: stdin_rejected_pow cursor_rejected_pow)
    with skip show ?thesis
      by (simp add: rejected_pow_eq)
  qed
  have eof: "HumanController_get_action self u t =
      Some (Inl EOFError, self,
            t\<lparr>cursor := cursor t + n,
              stdout := stdout t
                @ concat (replicate n [''Enter action: '', ''Invalid action''])
                @ [''Enter action: '']\<rparr>)"
    if "stdin t (cursor t + n) = None"
  proof -
    have "HumanController_get_action self u ?t =
        Some (Inl EOFError, self, ?t\<lparr>stdout := stdout ?t @ [''Enter action: '']\<rparr>)"
      using that by (intro get_action_eof) (simp add: stdin_rejected_pow cursor_rejected_pow)
    with skip show ?thesis
      by (simp add: rejected_pow_eq)
  qed
  have nokey: "fst y \<noteq> Inl KeyError" if "HumanController_get_action self u t = Some y" for y
    using get_action_returns [OF that] by (auto simp: human_result_ok_def)
  from accept eof nokey get_action_ignores [of self u t u'] get_action_forever [of t self u]
  show ?thesis
    by blast
qed

theorem HumanController_get_action_retry_witness:
  "HumanController_get_action lr_human idle
     \<lparr>stdin = stdin_of_list [''x'', ''l''], cursor = 0, stdout = []\<rparr> =
   Some (Inr Left, lr_human,
         \<lparr>stdin = stdin_of_list [''x'', ''l''], cursor = 2,
          stdout = [''Enter action: '', ''Invalid action'', ''Enter action: '']\<rparr>)"
proof -
  let ?t = "\<lparr>stdin = stdin_of_list [''x'', ''l''], cursor = 0, stdout = []\<rparr>"
  have bad: "\<forall>i<1. \<exists>tok. stdin ?t (cursor ?t + i) = Some tok \<and> resolves lr_human tok = None"
    by (simp add: stdin_of_list_def lr_human_resolves)
  have good: "stdin ?t (cursor ?t + 1) = Some ''l'' \<and> resolves lr_human ''l'' = Some Left"
    by (simp add: stdin_of_list_def lr_human_resolves)
  from HumanController_get_action_retry [OF bad, of idle idle] good
  have "HumanController_get_action lr_human idle ?t =
      Some (Inr Left, lr_human,
            ?t\<lparr>cursor := cursor ?t + 1 + 1,
                stdout := stdout ?t
                  @ concat (replicate 1 [''Enter action: '', ''Invalid action''])
                  @ [''Enter action: '']\<rparr>)"
    by blast
  then show ?thesis by simp
qed

text \<open>
  The input \<open>x\<close> followed by the end of the input: one error message, then the read
  raises and the exception leaves \<open>get_action\<close>.
\<close>

theorem HumanController_get_action_eof_counterexample:
  "HumanController_get_action lr_human idle
     \<lparr>stdin = stdin_of_list [''x''], cursor = 0, stdout = []\<rparr> =
   Some (Inl EOFError, lr_human,
         \<lparr>stdin = stdin_of_list [''x''], cursor = 1,
          stdout = [''Enter action: '', ''Invalid action'', ''Enter action: '']\<rparr>)"
proof -
  let ?t = "\<lparr>stdin = stdin_of_list [''x''], cursor = 0, stdout = []\<rparr>"
  have "HumanController_get_action lr_human idle ?t
      = HumanController_get_action lr_human idle (rejected ?t)"
    by (rule get_action_reject [of _ "''x''"]) (simp_all add: stdin_of_list_def lr_human_resolves)
  also have "\<dots> = Some (Inl EOFError, lr_human,
      (rejected ?t)\<lparr>stdout := stdout (rejected ?t) @ [''Enter action: '']\<rparr>)"
    by (rule get_action_eof) (simp add: stdin_of_list_def)
  finally show ?thesis by (simp add: rejected_def)
qed

text \<open>
  \<^bold>\<open>C10.\<close> An action that \<open>get_action\<close> of the human controller returns is a member of
  the action set given to the constructor: it is the entry of the controller's own
  \<open>action_map\<close> under the id of the action that the input map gave for some token. A
  token whose action has an id that no action of the set has is handled as a token the
  input map does not know: the message is printed and the next token is read.
\<close>

theorem HumanController_get_action_member:
  "(\<forall>u t a h' t'.
      HumanController_get_action (HumanController_init acts imap) u t = Some (Inr a, h', t') \<longrightarrow>
      a \<in> set (py_iter acts) \<and>
      (\<exists>tok action. imap tok = Some action \<and> action_id a = action_id action \<and>
         action_map (HumanController_init acts imap) (action_id action) = Some a)) \<and>
   (\<forall>u t tok action.
      stdin t (cursor t) = Some tok \<and> imap tok = Some action \<and>
      action_id action \<notin> action_id ` set (py_iter acts) \<longrightarrow>
      HumanController_get_action (HumanController_init acts imap) u t =
        HumanController_get_action (HumanController_init acts imap) u (rejected t)) \<and>
   (\<forall>u t tok.
      stdin t (cursor t) = Some tok \<and> imap tok = None \<longrightarrow>
      HumanController_get_action (HumanController_init acts imap) u t =
        HumanController_get_action (HumanController_init acts imap) u (rejected t))"
proof -
  let ?h = "HumanController_init acts imap"
  have im: "input_map ?h = imap" and am: "action_map ?h = dict_of_actions (py_iter acts)"
    by (simp_all add: HumanController_init_def Controller_init_def)
  have member: "a \<in> set (py_iter acts) \<and>
      (\<exists>tok action. imap tok = Some action \<and> action_id a = action_id action \<and>
         action_map ?h (action_id action) = Some a)"
    if "HumanController_get_action ?h u t = Some (Inr a, h', t')" for u t a h' t'
  proof -
    from get_action_returns [OF that] obtain tok action
      where tok: "imap tok = Some action"
        and look: "dict_of_actions (py_iter acts) (action_id action) = Some a"
      by (auto simp: human_result_ok_def im am)
    from dict_of_actions_Some [OF look]
    have "a \<in> set (py_iter acts)" and "action_id a = action_id action"
      by simp_all
    with tok look show ?thesis
      by (auto simp: am)
  qed
  have absent: "HumanController_get_action ?h u t = HumanController_get_action ?h u (rejected t)"
    if "stdin t (cursor t) = Some tok" "imap tok = Some action"
       "action_id action \<notin> action_id ` set (py_iter acts)" for u t tok action
  proof -
    from that(3) have "dict_of_actions (py_iter acts) (action_id action) = None"
      using dict_of_actions_dom [of "py_iter acts"] by blast
    with that(2) have "resolves ?h tok = None"
      by (simp add: resolves_def im am)
    with that(1) show ?thesis
      by (rule get_action_reject)
  qed
  have unknown: "HumanController_get_action ?h u t = HumanController_get_action ?h u (rejected t)"
    if "stdin t (cursor t) = Some tok" "imap tok = None" for u t tok
  proof -
    from that(2) have "resolves ?h tok = None"
      by (simp add: resolves_def im)
    with that(1) show ?thesis
      by (rule get_action_reject)
  qed
  from member absent unknown show ?thesis
    by blast
qed

theorem HumanController_get_action_member_witness:
  "HumanController_get_action lrd_human idle
     \<lparr>stdin = stdin_of_list [''d'', ''l''], cursor = 0, stdout = []\<rparr> =
   Some (Inr Left, lrd_human,
         \<lparr>stdin = stdin_of_list [''d'', ''l''], cursor = 2,
          stdout = [''Enter action: '', ''Invalid action'', ''Enter action: '']\<rparr>) \<and>
   Left \<in> set (py_iter (PySet [Left, Right]))"
proof -
  let ?t = "\<lparr>stdin = stdin_of_list [''d'', ''l''], cursor = 0, stdout = []\<rparr>"
  note inst = HumanController_get_action_member
    [of "PySet [Left, Right]" "[''l'' \<mapsto> Left, ''r'' \<mapsto> Right, ''d'' \<mapsto> Drop]",
     folded lrd_human_def]
  have "stdin ?t (cursor ?t) = Some ''d'' \<and>
      [''l'' \<mapsto> Left, ''r'' \<mapsto> Right, ''d'' \<mapsto> Drop] ''d'' = Some Drop \<and>
      action_id Drop \<notin> action_id ` set (py_iter (PySet [Left, Right]))"
    by (simp add: stdin_of_list_def Left_def Right_def Drop_def)
  with inst have "HumanController_get_action lrd_human idle ?t
      = HumanController_get_action lrd_human idle (rejected ?t)"
    by blast
  also have "\<dots> = Some (Inr Left, lrd_human,
      (rejected ?t)\<lparr>cursor := Suc (cursor (rejected ?t)),
                     stdout := stdout (rejected ?t) @ [''Enter action: '']\<rparr>)"
    by (rule get_action_accept [of _ "''l''"])
       (simp_all add: stdin_of_list_def resolves_def lrd_human_def HumanController_init_def
          Controller_init_def dict_of_actions_def Left_def Right_def Drop_def)
  finally have run: "HumanController_get_action lrd_human idle ?t =
      Some (Inr Left, lrd_human,
            \<lparr>stdin = stdin_of_list [''d'', ''l''], cursor = 2,
             stdout = [''Enter action: '', ''Invalid action'', ''Enter action: '']\<rparr>)"
    by (simp add: rejected_def)
  with inst have "Left \<in> set (py_iter (PySet [Left, Right]))"
    by blast
  with run show ?thesis by simp
qed

subsection \<open>The library operations\<close>


lemma np_random_rand_taken: "snd (np_random_rand g) = g\<lparr>taken := Suc (taken g)\<rparr>"
  by (simp add: np_random_rand_def)

lemma argmax_scan_correct:
  assumes "length ps = i" "bi < i" "ps ! bi = bv"
    and "\<forall>j<i. ps ! j \<le> bv" "\<forall>j<bi. ps ! j < bv"
  shows "argmax_scan bi bv i vs < length (ps @ vs) \<and>
         (\<forall>j < length (ps @ vs). (ps @ vs) ! j \<le> (ps @ vs) ! argmax_scan bi bv i vs) \<and>
         (\<forall>j < argmax_scan bi bv i vs. (ps @ vs) ! j < (ps @ vs) ! argmax_scan bi bv i vs)"
  using assms
proof (induction vs arbitrary: ps i bi bv)
  case Nil
  then show ?case by simp
next
  case (Cons v vs)
  show ?case
  proof (cases "bv < v")
    case True
    have "argmax_scan i v (Suc i) vs < length ((ps @ [v]) @ vs) \<and>
         (\<forall>j < length ((ps @ [v]) @ vs). ((ps @ [v]) @ vs) ! j \<le> ((ps @ [v]) @ vs) ! argmax_scan i v (Suc i) vs) \<and>
         (\<forall>j < argmax_scan i v (Suc i) vs. ((ps @ [v]) @ vs) ! j < ((ps @ [v]) @ vs) ! argmax_scan i v (Suc i) vs)"
    proof (rule Cons.IH)
      show "length (ps @ [v]) = Suc i" using Cons.prems by simp
      show "i < Suc i" by simp
      show "(ps @ [v]) ! i = v" using Cons.prems by (simp add: nth_append)
      show "\<forall>j<Suc i. (ps @ [v]) ! j \<le> v"
        using Cons.prems True by (auto simp: nth_append less_Suc_eq intro: order_trans less_imp_le)
      show "\<forall>j<i. (ps @ [v]) ! j < v"
        using Cons.prems True by (auto simp: nth_append intro: le_less_trans)
    qed
    with True show ?thesis by simp
  next
    case False
    have "argmax_scan bi bv (Suc i) vs < length ((ps @ [v]) @ vs) \<and>
         (\<forall>j < length ((ps @ [v]) @ vs). ((ps @ [v]) @ vs) ! j \<le> ((ps @ [v]) @ vs) ! argmax_scan bi bv (Suc i) vs) \<and>
         (\<forall>j < argmax_scan bi bv (Suc i) vs. ((ps @ [v]) @ vs) ! j < ((ps @ [v]) @ vs) ! argmax_scan bi bv (Suc i) vs)"
    proof (rule Cons.IH)
      show "length (ps @ [v]) = Suc i" using Cons.prems by simp
      show "bi < Suc i" using Cons.prems by simp
      show "(ps @ [v]) ! bi = bv" using Cons.prems by (simp add: nth_append)
      show "\<forall>j<Suc i. (ps @ [v]) ! j \<le> bv"
        using Cons.prems False by (auto simp: nth_append less_Suc_eq)
      show "\<forall>j<bi. (ps @ [v]) ! j < bv"
        using Cons.prems by (auto simp: nth_append)
    qed
    with False show ?thesis by simp
  qed
qed

lemma torch_argmax_first_max:
  assumes "torch_argmax q = Inr i"
  shows "i < length q \<and> (\<forall>j < length q. q ! j \<le> q ! i) \<and> (\<forall>j < i. q ! j < q ! i)"
proof (cases q)
  case Nil
  with assms show ?thesis by (simp add: torch_argmax_def)
next
  case (Cons v vs)
  with assms have i: "i = argmax_scan 0 v 1 vs"
    by (simp add: torch_argmax_def)
  from argmax_scan_correct [of "[v]" 1 0 v vs] show ?thesis
    unfolding i Cons by simp
qed

lemma torch_argmax_nonempty: "q \<noteq> [] \<Longrightarrow> \<exists>i. torch_argmax q = Inr i"
  by (cases q) (simp_all add: torch_argmax_def)

lemma torch_argmax_empty: "torch_argmax [] = Inl IndexError"
  by (simp add: torch_argmax_def)

lemma torch_argmax_Max:
  assumes "torch_argmax q = Inr i"
  shows "q ! i = Max (set q)"
proof -
  from torch_argmax_first_max [OF assms]
  have i: "i < length q" and le: "\<forall>j < length q. q ! j \<le> q ! i"
    by simp_all
  from i have "q ! i \<in> set q" by simp
  moreover from le have "\<forall>v \<in> set q. v \<le> q ! i"
    by (auto simp: in_set_conv_nth)
  ultimately show ?thesis
    by (intro Max_eqI [symmetric]) auto
qed

lemma np_random_choice_member:
  "fst (np_random_choice xs g) = Inr a \<Longrightarrow> a \<in> set xs"
  by (auto simp: np_random_choice_def split: if_splits)

lemma np_random_choice_nonempty:
  "xs \<noteq> [] \<Longrightarrow>
   np_random_choice xs g = (Inr (xs ! (raw g (taken g) mod length xs)), g\<lparr>taken := Suc (taken g)\<rparr>)"
  by (simp add: np_random_choice_def)

subsection \<open>Shapes and the forward pass\<close>

lemma nn_Linear_shaped: "Linear_shaped inp out (nn_Linear inp out w0 b0)"
  by (simp add: Linear_shaped_def nn_Linear_def)


lemma Linear_forward_shaped:
  assumes "Linear_shaped inp out l"
  shows "Linear_forward l x =
     (if length x = inp
      then Inr (map (\<lambda>r. dot (take inp (drop (r * inp) (data (weight l)))) x
                          + data (bias l) ! r) [0..<out])
      else Inl RuntimeError)"
  using assms by (simp add: Linear_shaped_def Linear_forward_def)

lemma Linear_forward_length:
  assumes "Linear_shaped inp out l" "length x = inp"
  shows "\<exists>y. Linear_forward l x = Inr y \<and> length y = out"
  using assms by (simp add: Linear_forward_shaped)

lemma row_of_map_upt:
  assumes "r < out"
  shows "take inp (drop (r * inp) (map w0 [0..<out * inp])) = map w0 [r * inp..<r * inp + inp]"
proof -
  from assms have "Suc r \<le> out" by simp
  then have "Suc r * inp \<le> out * inp" by (rule mult_le_mono1)
  then have "r * inp + inp \<le> out * inp" by (simp add: add.commute)
  then have "take inp [r * inp..<out * inp] = [r * inp..<r * inp + inp]"
    by (rule take_upt)
  then show ?thesis
    by (simp add: take_map drop_map)
qed

lemma Linear_forward_nn_Linear:
  assumes "length x = inp"
  shows "Linear_forward (nn_Linear inp out w0 b0) x =
     Inr (map (\<lambda>r. dot (map w0 [r * inp..<r * inp + inp]) x + b0 r) [0..<out])"
proof -
  have "map (\<lambda>r. dot (take inp (drop (r * inp) (map w0 [0..<out * inp]))) x
                    + map b0 [0..<out] ! r) [0..<out]
      = map (\<lambda>r. dot (map w0 [r * inp..<r * inp + inp]) x + b0 r) [0..<out]"
    by (rule map_cong) (simp_all add: row_of_map_upt)
  with assms show ?thesis
    by (simp add: Linear_forward_shaped [OF nn_Linear_shaped]) (simp add: nn_Linear_def)
qed

lemma dot_zero_row: "dot (map (\<lambda>k. 0) ks) x = 0"
proof -
  have "map2 (*) (map (\<lambda>k. 0::real) ks) x = map (\<lambda>p. 0) (zip ks x)"
    by (simp add: zip_map1 case_prod_unfold)
  then show ?thesis
    by (simp add: dot_def)
qed

lemma dot_zero_replicate: "dot (replicate n 0) x = 0"
  using dot_zero_row [of "[0..<n]" x] by (simp add: map_replicate_const)

lemma example_net_forward:
  "DQN_forward example_net (to_tensor example_state) = Inr (nn_Softmax [0, 1, 0])"
proof -
  have h1: "Linear_forward (fc1 example_net) (replicate 10 0) = Inr (replicate 128 0)"
    by (simp add: example_net_def DQN_init_def Linear_forward_nn_Linear dot_zero_replicate
          map_replicate_const)
  have h2: "Linear_forward (fc2 example_net) (replicate 128 0) = Inr (replicate 64 0)"
    by (simp add: example_net_def DQN_init_def Linear_forward_nn_Linear dot_zero_replicate
          map_replicate_const)
  have "[0..<3] = [0, 1, 2]"
    by (simp add: upt_conv_Cons)
  then have h3: "Linear_forward (fc3 example_net) (replicate 64 0) = Inr [0, 1, 0]"
    by (simp add: example_net_def DQN_init_def Linear_forward_nn_Linear dot_zero_row)
  have relu: "torch_relu (replicate n 0) = replicate n 0" for n
    by (simp add: torch_relu_def)
  show ?thesis
    by (simp add: DQN_forward_def example_state_def h1 h2 h3 relu)
qed

lemma example_argmax: "torch_argmax (nn_Softmax [0, 1, 0]) = Inr 1"
proof -
  have pos: "(0::real) < 1 + exp 1 + 1"
    by (simp add: add_pos_pos)
  have "(1::real) < exp 1" by simp
  then have a: "1 / (1 + exp 1 + 1) < exp 1 / (1 + exp 1 + (1::real))"
    using pos by (rule divide_strict_right_mono)
  from a have b: "\<not> exp 1 / (1 + exp 1 + 1) < 1 / (1 + exp 1 + (1::real))"
    by simp
  show ?thesis
    using a b by (simp add: torch_argmax_def nn_Softmax_def)
qed

subsection \<open>Action selection of the DQN controllers\<close>

lemma trainer_init_fields:
  "actions (DQNTrainerController_init acts net e) = acts"
  "action_map (DQNTrainerController_init acts net e) = dict_of_actions (py_iter acts)"
  "DQNTrainerController.model (DQNTrainerController_init acts net e) = net"
  "epsilon (DQNTrainerController_init acts net e) = e"
  by (simp_all add: DQNTrainerController_init_def Controller_init_def)

lemma player_init_fields:
  "actions (DQNPlayerController_init acts net) = acts"
  "action_map (DQNPlayerController_init acts net) = dict_of_actions (py_iter acts)"
  "DQNPlayerController.model (DQNPlayerController_init acts net) = net"
  by (simp_all add: DQNPlayerController_init_def Controller_init_def)

lemma trainer_explore:
  assumes "fst (np_random_rand g) < epsilon c"
  shows "DQNTrainerController_get_action c state g =
     (fst (np_random_choice (py_iter (actions c)) (g\<lparr>taken := Suc (taken g)\<rparr>)), c,
      snd (np_random_choice (py_iter (actions c)) (g\<lparr>taken := Suc (taken g)\<rparr>)))"
  using assms
  by (simp add: DQNTrainerController_get_action_exact np_random_rand_def split: prod.splits)

lemma trainer_greedy:
  assumes "\<not> fst (np_random_rand g) < epsilon c"
    and "DQN_forward (DQNTrainerController.model c) (to_tensor state) = Inr q"
    and "torch_argmax q = Inr i"
  shows "DQNTrainerController_get_action c state g =
     ((case action_map c (int i) of None \<Rightarrow> Inl KeyError | Some a \<Rightarrow> Inr a), c,
      g\<lparr>taken := Suc (taken g)\<rparr>)"
  using assms
  by (simp add: DQNTrainerController_get_action_exact np_random_rand_def
           split: prod.splits option.splits)

lemma trainer_greedy_generator:
  assumes "\<not> fst (np_random_rand g) < epsilon c"
  shows "snd (DQNTrainerController_get_action c state g) = (c, g\<lparr>taken := Suc (taken g)\<rparr>)"
  using assms
  by (simp add: DQNTrainerController_get_action_exact np_random_rand_def
           split: prod.splits option.splits sum.splits)

lemma dice_rand: "fst (np_random_rand dice) = 4 / 2 ^ 53"
  by (simp add: np_random_rand_def dice_def)

lemma player_on_set:
  "fst (DQNPlayerController_get_action (DQNPlayerController_init (PySet xs) net) state g) \<noteq> Inr a"
  by (simp add: DQNPlayerController_get_action_def player_init_fields split: sum.splits)

lemma player_run:
  assumes "DQN_forward (DQNPlayerController.model p) (to_tensor state) = Inr q"
    and "torch_argmax q = Inr i"
  shows "DQNPlayerController_get_action p state g = (py_getitem (actions p) (int i), p, g)"
  using assms by (simp add: DQNPlayerController_get_action_def)

lemma trainer_example_greedy:
  "fst (DQNTrainerController_get_action
          (DQNTrainerController_init acts example_net 0) example_state dice)
     = (case dict_of_actions (py_iter acts) 1 of None \<Rightarrow> Inl KeyError | Some a \<Rightarrow> Inr a)"
proof -
  let ?c = "DQNTrainerController_init acts example_net 0"
  have ne: "\<not> fst (np_random_rand dice) < epsilon ?c"
    by (simp add: trainer_init_fields dice_rand)
  have fw: "DQN_forward (DQNTrainerController.model ?c) (to_tensor example_state)
      = Inr (nn_Softmax [0, 1, 0])"
    by (simp add: trainer_init_fields example_net_forward)
  from trainer_greedy [OF ne fw example_argmax] show ?thesis
    by (simp add: trainer_init_fields)
qed

lemma dict_of_three:
  "dict_of_actions [a, b, c] = [action_id a \<mapsto> a, action_id b \<mapsto> b, action_id c \<mapsto> c]"
  by (simp add: dict_of_actions_def)








text \<open>
  The action set \<open>{Left, Drop}\<close> with the ids 0 and 2, \<open>epsilon = 0\<close>, and a network
  whose best score is at position 1: no action has that id, and the lookup raises.
\<close>

theorem DQNTrainerController_get_action_KeyError_counterexample:
  "fst (DQNTrainerController_get_action
          (DQNTrainerController_init (PySet [Left, Drop]) example_net 0) example_state dice)
     = Inl KeyError"
  by (simp add: trainer_example_greedy dict_of_actions_def Left_def Drop_def)

text \<open>
  \<^bold>\<open>C9.\<close> \<open>get_action\<close> of the player leaves the parameters of the network, the
  action set and the action map of the controller as they were, and takes no output
  of the random generator.
\<close>

theorem DQNPlayerController_get_action_frame:
  "DQNPlayerController.model (fst (snd (DQNPlayerController_get_action self state g)))
     = DQNPlayerController.model self \<and>
   actions (fst (snd (DQNPlayerController_get_action self state g))) = actions self \<and>
   action_map (fst (snd (DQNPlayerController_get_action self state g))) = action_map self \<and>
   snd (snd (DQNPlayerController_get_action self state g)) = g"
  by (simp add: player_get_action_frame)

text \<open>
  \<^bold>\<open>C1.\<close> The player is to return the action at the position of the maximum score.
  When the actions are a set, as the constructor declares, no call returns an action:
  on the action set \<open>{Left, Right, Drop}\<close>, the example network and the example state
  the forward pass and the argmax succeed, and the subscript on the set raises
  \<^verbatim>\<open>TypeError\<close>.
\<close>

theorem DQNPlayerController_get_action_TypeError:
  "(\<forall>xs net state g a.
      fst (DQNPlayerController_get_action (DQNPlayerController_init (PySet xs) net) state g)
        \<noteq> Inr a) \<and>
   fst (DQNPlayerController_get_action
          (DQNPlayerController_init (PySet [Left, Right, Drop]) example_net) example_state dice)
     = Inl TypeError"
proof -
  have "DQN_forward
      (DQNPlayerController.model (DQNPlayerController_init (PySet [Left, Right, Drop]) example_net))
      (to_tensor example_state) = Inr (nn_Softmax [0, 1, 0])"
    by (simp add: player_init_fields example_net_forward)
  from player_run [OF this example_argmax] show ?thesis
    by (simp add: player_init_fields player_on_set)
qed

text \<open>
  \<^bold>\<open>C2.\<close> The trainer with \<open>epsilon = 0\<close> and the player are to return the same action
  for the same network and state. On the action set \<open>{Left, Right, Drop}\<close> the trainer
  returns \<open>Right\<close>, the action with the id of the best score, and the player raises
  \<^verbatim>\<open>TypeError\<close>. When the actions are passed as the list \<open>[Drop, Left, Right]\<close> the
  trainer still returns \<open>Right\<close> and the player returns \<open>Left\<close>, the action at that
  position of the list.
\<close>

theorem trainer_greedy_player_differ:
  "fst (DQNTrainerController_get_action
          (DQNTrainerController_init (PySet [Left, Right, Drop]) example_net 0) example_state dice)
     = Inr Right \<and>
   fst (DQNPlayerController_get_action
          (DQNPlayerController_init (PySet [Left, Right, Drop]) example_net) example_state dice)
     = Inl TypeError \<and>
   fst (DQNTrainerController_get_action
          (DQNTrainerController_init (PyList [Drop, Left, Right]) example_net 0) example_state dice)
     = Inr Right \<and>
   fst (DQNPlayerController_get_action
          (DQNPlayerController_init (PyList [Drop, Left, Right]) example_net) example_state dice)
     = Inr Left"
proof -
  have fw: "DQN_forward (DQNPlayerController.model (DQNPlayerController_init acts example_net))
      (to_tensor example_state) = Inr (nn_Softmax [0, 1, 0])" for acts
    by (simp add: player_init_fields example_net_forward)
  have "fst (DQNPlayerController_get_action (DQNPlayerController_init acts example_net)
               example_state dice) = py_getitem acts 1" for acts
    using player_run [OF fw example_argmax, of acts dice] by (simp add: player_init_fields)
  then show ?thesis
    by (simp add: trainer_example_greedy dict_of_three Left_def Right_def Drop_def)
qed

subsection \<open>The network and its checkpoints\<close>









text \<open>
  The number of entries is the \<open>output_size\<close> the network was built with, whatever the
  action set of the controller that holds it: a network built with five outputs, in a
  trainer with the three actions \<open>{Left, Right, Drop}\<close>, returns five scores.
\<close>

theorem DQN_forward_output_size_counterexample:
  "DQN_forward wide_net (to_tensor example_state) = Inr (replicate 5 (1 / 5)) \<and>
   length (py_iter (actions (DQNTrainerController_init (PySet [Left, Right, Drop]) wide_net 0)))
     = 3"
proof -
  have h1: "Linear_forward (fc1 wide_net) (replicate 10 0) = Inr (replicate 128 0)"
    by (simp add: wide_net_def DQN_init_def Linear_forward_nn_Linear dot_zero_replicate
          map_replicate_const)
  have h2: "Linear_forward (fc2 wide_net) (replicate 128 0) = Inr (replicate 64 0)"
    by (simp add: wide_net_def DQN_init_def Linear_forward_nn_Linear dot_zero_replicate
          map_replicate_const)
  have h3: "Linear_forward (fc3 wide_net) (replicate 64 0) = Inr (replicate 5 0)"
    by (simp add: wide_net_def DQN_init_def Linear_forward_nn_Linear dot_zero_replicate
          map_replicate_const)
  have relu: "torch_relu (replicate n 0) = replicate n 0" for n
    by (simp add: torch_relu_def)
  have soft: "nn_Softmax (replicate 5 0) = replicate 5 (1 / 5)"
    by (simp add: nn_Softmax_def sum_list_replicate)
  have "DQN_forward wide_net (to_tensor example_state) = Inr (replicate 5 (1 / 5))"
    by (simp add: DQN_forward_def example_state_def h1 h2 h3 relu soft)
  then show ?thesis
    by (simp add: trainer_init_fields)
qed

lemma DQN_save_lookup: "DQN_save self path fs path = Some (Pickled (DQN_state_dict self))"
  by (simp add: DQN_save_def)

lemma load_own_state_dict:
  assumes "map shape (DQN_parameters other) = map shape (DQN_parameters self)"
  shows "DQN_load_state_dict other (DQN_state_dict self) = Inr self"
proof -
  from assms have sh:
    "shape (weight (fc1 self)) = shape (weight (fc1 other))"
    "shape (bias (fc1 self)) = shape (bias (fc1 other))"
    "shape (weight (fc2 self)) = shape (weight (fc2 other))"
    "shape (bias (fc2 self)) = shape (bias (fc2 other))"
    "shape (weight (fc3 self)) = shape (weight (fc3 other))"
    "shape (bias (fc3 self)) = shape (bias (fc3 other))"
    by (simp_all add: DQN_parameters_def)
  have l1: "load_Linear (DQN_state_dict self) ''fc1'' (fc1 other) = Inr (fc1 self)"
    by (simp add: load_Linear_def load_param_def DQN_state_dict_def sh)
  have l2: "load_Linear (DQN_state_dict self) ''fc2'' (fc2 other) = Inr (fc2 self)"
    by (simp add: load_Linear_def load_param_def DQN_state_dict_def sh)
  have l3: "load_Linear (DQN_state_dict self) ''fc3'' (fc3 other) = Inr (fc3 self)"
    by (simp add: load_Linear_def load_param_def DQN_state_dict_def sh)
  have keys: "map fst (DQN_state_dict self) = map fst (DQN_state_dict other)"
    by (simp add: DQN_state_dict_def)
  show ?thesis
    by (simp add: DQN_load_state_dict_def keys l1 l2 l3)
qed

text \<open>
  \<^bold>\<open>C8.\<close> Saving a network and loading the file into a network whose parameters have
  the same shapes succeeds and gives the saved parameters, so the forward pass of the
  loaded network agrees with that of the saved one on every input.
\<close>

theorem DQN_save_load_roundtrip:
  assumes "map shape (DQN_parameters other) = map shape (DQN_parameters self)"
  shows "DQN_load other path (DQN_save self path fs) = Inr self \<and>
         (\<forall>loaded x. DQN_load other path (DQN_save self path fs) = Inr loaded \<longrightarrow>
            DQN_forward loaded x = DQN_forward self x)"
proof -
  have "DQN_load other path (DQN_save self path fs) = Inr self"
    by (simp add: DQN_load_def DQN_save_lookup load_own_state_dict [OF assms])
  then show ?thesis by simp
qed

theorem DQN_save_load_roundtrip_witness:
  "map shape (DQN_parameters ones_net) = map shape (DQN_parameters example_net) \<and>
   DQN_load ones_net ''dqn.pth'' (DQN_save example_net ''dqn.pth'' Map.empty) = Inr example_net"
proof -
  have sh: "map shape (DQN_parameters ones_net) = map shape (DQN_parameters example_net)"
    by (simp add: DQN_parameters_def ones_net_def example_net_def DQN_init_def nn_Linear_def)
  from DQN_save_load_roundtrip [OF sh] sh show ?thesis
    by blast
qed

subsection \<open>The training step\<close>

lemma foldl_max_Max: "foldl max v vs = Max (set (v # vs))" for v :: real
proof -
  have "(\<lambda>x s. max s x) = (max :: real \<Rightarrow> real \<Rightarrow> real)"
    by (intro ext) (rule max.commute)
  then have "foldl max v vs = fold max vs v"
    by (simp add: foldl_conv_fold)
  then show ?thesis
    by (simp only: Max.set_eq_fold)
qed

lemma torch_max_Max: "q \<noteq> [] \<Longrightarrow> torch_max q = Inr (Max (set q))"
  by (cases q) (simp_all add: torch_max_def foldl_max_Max del: set_simps)

lemma tensor_setitem_valid:
  "0 \<le> i \<Longrightarrow> i < int (length t) \<Longrightarrow> tensor_setitem t i v = Inr (t[nat i := v])"
  by (simp add: tensor_setitem_def)

lemma squares_same: "sum_list (map2 (\<lambda>x y. (x - y)\<^sup>2) q q) = (0::real)"
  by (induction q) simp_all

lemma squares_update:
  "a < length q \<Longrightarrow> sum_list (map2 (\<lambda>x y. (x - y)\<^sup>2) q (q[a := t])) = (q ! a - t)\<^sup>2"
  for t :: real
proof (induction q arbitrary: a)
  case Nil
  then show ?case by simp
next
  case (Cons x q)
  then show ?case
    by (cases a) (simp_all add: squares_same)
qed

lemma nn_MSELoss_update:
  "a < length q \<Longrightarrow> nn_MSELoss q (q[a := t]) = (q ! a - t)\<^sup>2 / real (length q)"
  by (simp add: nn_MSELoss_def squares_update)

lemma moments_fresh:
  fixes b c :: real
  assumes "map length grads = map (\<lambda>p. length (data p)) params"
  shows "map2 (map2 (\<lambda>m d. b * m + c * f d)) (map (\<lambda>p. replicate (length (data p)) 0) params) grads
       = map (map (\<lambda>d. c * f d)) (grads :: real list list)"
  using assms
proof (induction params arbitrary: grads)
  case Nil
  then show ?case by simp
next
  case (Cons p params)
  then obtain g gs where grads: "grads = g # gs"
    by (cases grads) auto
  with Cons.prems have len: "length (data p) = length g"
    and rest: "map length gs = map (\<lambda>p. length (data p)) params"
    by simp_all
  have "map2 (\<lambda>m d. b * m + c * f d) (replicate (length g) 0) g = map (\<lambda>d. c * f d) g"
    by (induction g) simp_all
  with Cons.IH [OF rest] show ?case
    by (simp add: grads len)
qed

lemma adam_entry_fresh:
  "adam_entry (optim_Adam ps lr0) (Suc 0) x (d / 10, d * d / 1000)
     = x - lr0 * (d / (\<bar>d\<bar> + 1 / 10 ^ 8))"
proof -
  define s :: real where "s = sqrt (1 / 1000)"
  have s: "0 < s"
    by (simp add: s_def)
  have v: "sqrt (d * d / 1000) = \<bar>d\<bar> * s"
    by (simp add: s_def real_sqrt_divide real_sqrt_mult)
  have e1: "1 - (9 / 10) ^ Suc 0 = (1 / 10 :: real)"
    and e2: "1 - (999 / 1000) ^ Suc 0 = (1 / 1000 :: real)"
    by simp_all
  have "adam_entry (optim_Adam ps lr0) (Suc 0) x (d / 10, d * d / 1000)
      = x - lr0 / (1 - (9 / 10) ^ Suc 0)
            * (d / 10 / (sqrt (d * d / 1000) / sqrt (1 - (999 / 1000) ^ Suc 0) + 1 / 10 ^ 8))"
    by (simp only: adam_entry_def optim_Adam_def Let_def Adam.select_convs fst_conv snd_conv)
  also have "\<dots> = x - lr0 / (1 / 10) * (d / 10 / (\<bar>d\<bar> * s / s + 1 / 10 ^ 8))"
    by (simp only: e1 e2 v s_def)
  also have "\<bar>d\<bar> * s / s = \<bar>d\<bar>"
    using s by simp
  also have "lr0 / (1 / 10) * (d / 10 / D) = lr0 * (d / D)" for D :: real
    by simp
  finally show ?thesis .
qed

lemma map2_zip_maps:
  "map2 h xs (zip (map f1 g) (map f2 g)) = map2 (\<lambda>x d. h x (f1 d, f2 d)) xs g"
proof (induction g arbitrary: xs)
  case Nil
  show ?case by simp
next
  case (Cons d g)
  then show ?case by (cases xs) simp_all
qed

lemma Adam_step_fresh:
  assumes "map length grads = map (\<lambda>p. length (data p)) params"
  shows "fst (Adam_step (optim_Adam params lr0) grads params) =
           map2 (\<lambda>p g. p\<lparr>data := map2 (\<lambda>x d. x - lr0 * (d / (\<bar>d\<bar> + 1 / 10 ^ 8))) (data p) g\<rparr>)
             params grads"
    and "step_count (snd (Adam_step (optim_Adam params lr0) grads params)) = 1"
proof -
  let ?opt = "optim_Adam params lr0"
  have ms: "map2 (map2 (\<lambda>m g. beta1 ?opt * m + (1 - beta1 ?opt) * g)) (exp_avg ?opt) grads
      = map (map (\<lambda>d. d / 10)) grads"
    using moments_fresh [OF assms, of "9 / 10" "1 / 10" "\<lambda>d. d"]
    by (simp add: optim_Adam_def)
  have vs: "map2 (map2 (\<lambda>v g. beta2 ?opt * v + (1 - beta2 ?opt) * (g * g))) (exp_avg_sq ?opt) grads
      = map (map (\<lambda>d. d * d / 1000)) grads"
    using moments_fresh [OF assms, of "999 / 1000" "1 / 1000" "\<lambda>d. d * d"]
    by (simp add: optim_Adam_def)
  have t: "Suc (step_count ?opt) = Suc 0"
    by (simp add: optim_Adam_def)
  have "fst (Adam_step ?opt grads params) =
      map2 (\<lambda>p mv. p\<lparr>data := map2 (adam_entry ?opt (Suc 0)) (data p) (zip (fst mv) (snd mv))\<rparr>)
        params (zip (map (map (\<lambda>d. d / 10)) grads) (map (map (\<lambda>d. d * d / 1000)) grads))"
    by (simp only: Adam_step_def Let_def ms vs t fst_conv)
  also have "\<dots> =
      map2 (\<lambda>p g. p\<lparr>data := map2 (adam_entry ?opt (Suc 0)) (data p)
                                (zip (map (\<lambda>d. d / 10) g) (map (\<lambda>d. d * d / 1000) g))\<rparr>)
        params grads"
    by (simp only: map2_zip_maps fst_conv snd_conv)
  also have "\<dots> =
      map2 (\<lambda>p g. p\<lparr>data := map2 (\<lambda>x d. adam_entry ?opt (Suc 0) x (d / 10, d * d / 1000))
                                (data p) g\<rparr>)
        params grads"
    by (simp only: map2_zip_maps)
  finally show "fst (Adam_step ?opt grads params) =
           map2 (\<lambda>p g. p\<lparr>data := map2 (\<lambda>x d. x - lr0 * (d / (\<bar>d\<bar> + 1 / 10 ^ 8))) (data p) g\<rparr>)
             params grads"
    by (simp only: adam_entry_fresh)
  show "step_count (snd (Adam_step ?opt grads params)) = 1"
    by (simp add: Adam_step_def Let_def optim_Adam_def)
qed

text \<open>
  A training step leaves the shapes of the parameters as they are, so a network that
  the constructor built keeps the shapes of the constructor through training.
\<close>

lemma train_keeps_shapes:
  assumes shaped: "DQN_shaped input_size output_size (DQNTrainerController.model c)"
    and grads: "map length (backward (\<lambda>net. td_loss net state action next_state reward)
                       (DQNTrainerController.model c))
           = map (\<lambda>p. length (data p)) (DQN_parameters (DQNTrainerController.model c))"
  shows "DQN_shaped input_size output_size
           (DQNTrainerController.model
              (snd (DQNTrainerController_train backward c state action next_state reward)))"
proof (cases "td_loss (DQNTrainerController.model c) state action next_state reward")
  case (Inl e)
  with shaped show ?thesis
    by (simp add: DQNTrainerController_train_def)
next
  case (Inr loss)
  let ?m = "DQNTrainerController.model c"
  let ?g = "backward (\<lambda>net. td_loss net state action next_state reward) ?m"
  from grads obtain g1 g2 g3 g4 g5 g6 where g: "?g = [g1, g2, g3, g4, g5, g6]"
    and len: "length g1 = length (data (weight (fc1 ?m)))" "length g2 = length (data (bias (fc1 ?m)))"
      "length g3 = length (data (weight (fc2 ?m)))" "length g4 = length (data (bias (fc2 ?m)))"
      "length g5 = length (data (weight (fc3 ?m)))" "length g6 = length (data (bias (fc3 ?m)))"
    by (auto simp: DQN_parameters_def map_eq_Cons_conv)
  have "DQNTrainerController.model
      (snd (DQNTrainerController_train backward c state action next_state reward))
      = DQN_with_parameters ?m
          (map2 (\<lambda>p g. p\<lparr>data := map2 (\<lambda>x d. x - 1 / 1000 * (d / (\<bar>d\<bar> + 1 / 10 ^ 8))) (data p) g\<rparr>)
             (DQN_parameters ?m) ?g)"
    by (simp add: DQNTrainerController_train_def Inr Let_def Adam_step_fresh [OF grads])
  with shaped show ?thesis
    by (simp add: g len DQN_parameters_def DQN_with_parameters_def DQN_shaped_def Linear_shaped_def)
qed



lemma tensor_setitem_out_of_range:
  "\<not> (- int (length t) \<le> i \<and> i < int (length t)) \<Longrightarrow> tensor_setitem t i v = Inl IndexError"
  by (auto simp: tensor_setitem_def)


lemma td_loss_cases:
  "td_loss net state action next_state reward =
     (case DQN_forward net (to_tensor state) of
        Inl e \<Rightarrow> Inl e
      | Inr q \<Rightarrow>
          (case DQN_forward net (to_tensor next_state) of
             Inl e \<Rightarrow> Inl e
           | Inr nq \<Rightarrow>
               if nq = [] then Inl RuntimeError
               else if \<not> (- int (length q) \<le> action_id action \<and> action_id action < int (length q))
               then Inl IndexError
               else Inr (nn_MSELoss q
                      (q[(if action_id action < 0 then nat (int (length q) + action_id action)
                          else nat (action_id action)) := reward + Max (set nq)]))))"
proof -
  have "td_target q nq action reward =
      (if nq = [] then Inl RuntimeError
       else if \<not> (- int (length q) \<le> action_id action \<and> action_id action < int (length q))
       then Inl IndexError
       else Inr (q[(if action_id action < 0 then nat (int (length q) + action_id action)
                    else nat (action_id action)) := reward + Max (set nq)]))" for q nq
  proof (cases "nq = []")
    case True
    then show ?thesis by (simp add: td_target_def torch_max_def)
  next
    case False
    then show ?thesis
      by (simp add: td_target_def torch_max_Max tensor_setitem_def)
  qed
  then show ?thesis
    by (simp add: td_loss_def split: sum.splits)
qed

lemma train_raises:
  "td_loss (DQNTrainerController.model c) state action next_state reward = Inl e \<Longrightarrow>
   DQNTrainerController_train backward c state action next_state reward = (Inl e, c)"
  by (simp add: DQNTrainerController_train_def)









text \<open>
  An action with the id 3 and a network with three scores: the assignment to the target
  raises \<^verbatim>\<open>IndexError\<close>, and no step of the optimizer is taken.
\<close>

theorem DQNTrainerController_train_IndexError_counterexample:
  "DQNTrainerController_train zero_backward
     (DQNTrainerController_init (PySet [Left, Right, Drop]) example_net 0)
     example_state Hold example_state 1
     = (Inl IndexError, DQNTrainerController_init (PySet [Left, Right, Drop]) example_net 0)"
proof -
  have len: "length (nn_Softmax [0, 1, 0]) = 3" "nn_Softmax [0, 1, 0] \<noteq> []"
    by (simp_all add: nn_Softmax_def)
  have "td_loss example_net example_state Hold example_state 1 = Inl IndexError"
    by (simp add: td_loss_cases example_net_forward len Hold_def)
  then show ?thesis
    by (intro train_raises) (simp add: trainer_init_fields)
qed

end
